theory Spec2Isabelle
  imports Main
begin

section \<open>The service worker of The Spackler Index (app/static/sw.js)\<close>

text \<open>
  The worker registers four event handlers (install, activate, fetch, message) that call
  the browser's cache storage, its network transport and the worker's own control
  operations. The handlers are embedded as state-passing functions over a \<open>world\<close>:
  the contents of the origin's cache storage together with the list of platform calls
  the script has made so far, in program order.
\<close>

subsection \<open>Requests, responses and promises\<close>

text \<open>
  A parsed URL, as \<open>new URL(event.request.url)\<close> exposes it. Two requests address the
  same cache entry when their URLs are equal (query string included).
\<close>

record URL =
  origin :: string
  pathname :: string
  search :: string

text \<open>
  An intercepted request: \<open>event.request.method\<close> (the field is \<open>req_method\<close>
  here), \<open>event.request.url\<close> and \<open>event.request.mode\<close>.
\<close>

record request =
  req_method :: string
  url :: URL
  mode :: string

record response =
  status :: nat
  body :: string

text \<open>
  A promise as seen once the event loop has run: resolved with a value, rejected, or
  never settled (a hung network fetch).
\<close>

datatype 'a promise = Resolved 'a | Rejected | Pending

text \<open>
  The JavaScript values that reach \<open>respondWith\<close> and the operands of \<open>||\<close> in the
  fetch handler. Every object, a Promise included, is truthy; only \<open>undefined\<close> and
  \<open>null\<close> are falsy here.
\<close>

datatype jsval = Undefined | Null | Resp response | Promise "jsval promise"

fun truthy :: "jsval \<Rightarrow> bool" where
  "truthy Undefined = False"
| "truthy Null = False"
| "truthy (Resp r) = True"
| "truthy (Promise p) = True"

text \<open>What a cache lookup hands to the script: the response, or \<open>undefined\<close>.\<close>

fun js :: "response option \<Rightarrow> jsval" where
  "js None = Undefined"
| "js (Some r) = Resp r"

text \<open>
  What the page gets from \<open>event.respondWith(v)\<close>: promises are followed until a
  value is reached; a value that is not a Response, or a rejection, is a network error.
\<close>

datatype delivered = Delivered response | NetworkError | NeverSettles

fun settle :: "jsval \<Rightarrow> delivered" where
  "settle Undefined = NetworkError"
| "settle Null = NetworkError"
| "settle (Resp r) = Delivered r"
| "settle (Promise Rejected) = NetworkError"
| "settle (Promise Pending) = NeverSettles"
| "settle (Promise (Resolved v)) = settle v"

text \<open>\<open>String.prototype.startsWith\<close>.\<close>

fun startsWith :: "string \<Rightarrow> string \<Rightarrow> bool" where
  "startsWith s [] = True"
| "startsWith [] (p # ps) = False"
| "startsWith (c # cs) (p # ps) = (c = p \<and> startsWith cs ps)"

subsection \<open>The platform\<close>

text \<open>
  The outcome of one network fetch: a response (of any status), a failure, or no
  answer at all.
\<close>

datatype fetch_result = NetOk response | NetFail | NetHang

text \<open>
  What the handlers cannot see in advance: the origin the worker is served from (string
  URLs such as \<open>'/static/offline.html'\<close> are resolved against it), what the network
  answers for each URL, and for which store names the platform fails to delete.
\<close>

record env =
  self_origin :: string
  network :: "URL \<Rightarrow> fetch_result"
  delete_fails :: "string \<Rightarrow> bool"

type_synonym cache = "(URL \<times> response) list"

text \<open>The named stores of the origin, in creation order.\<close>

type_synonym cache_storage = "(string \<times> cache) list"

text \<open>The platform calls the script makes.\<close>

datatype call =
    CachesOpen string
  | CacheAddAll string "URL list"
  | CachePut string URL response
  | CachesMatch URL
  | CachesKeys
  | CachesDelete string
  | Fetch URL
  | SkipWaiting
  | ClientsClaim

record world =
  storage :: cache_storage
  trace :: "call list"

definition record_call :: "call \<Rightarrow> world \<Rightarrow> world" where
  "record_call c w = w\<lparr>trace := trace w @ [c]\<rparr>"

definition to_URL :: "env \<Rightarrow> string \<Rightarrow> URL" where
  "to_URL e p = \<lparr>origin = self_origin e, pathname = p, search = ''''\<rparr>"

text \<open>
  Modelled from the spec: the browser's cache storage is not part of the repository; it
  is the Store API of the spec's external interfaces (\<open>open(name)\<close>, \<open>list_names()\<close>,
  \<open>delete(name)\<close>, \<open>get(request)\<close>, \<open>put(request, response)\<close>,
  \<open>add_all(list of request)\<close>), a key-value store of responses. What a browser refuses
  on its own account (a response it will not store, a quota) is not part of that
  interface and not modelled.
  \<open>caches.match\<close> searches the stores in creation order and answers with the first hit.
\<close>

fun storage_match :: "cache_storage \<Rightarrow> URL \<Rightarrow> response option" where
  "storage_match [] u = None"
| "storage_match ((name, c) # rest) u =
     (case map_of c u of Some r \<Rightarrow> Some r | None \<Rightarrow> storage_match rest u)"

definition caches_match :: "URL \<Rightarrow> world \<Rightarrow> response option \<times> world" where
  "caches_match u w = (storage_match (storage w) u, record_call (CachesMatch u) w)"

text \<open>Modelled from the spec: \<open>open(name)\<close> creates the store when it is absent.\<close>

definition caches_open :: "string \<Rightarrow> world \<Rightarrow> world" where
  "caches_open name w =
     (let w1 = record_call (CachesOpen name) w
      in if name \<in> set (map fst (storage w1)) then w1
         else w1\<lparr>storage := storage w1 @ [(name, [])]\<rparr>)"

text \<open>Modelled from the spec: \<open>put\<close> replaces the entry under the request's key.\<close>

fun put_entry :: "URL \<Rightarrow> response \<Rightarrow> cache \<Rightarrow> cache" where
  "put_entry u r [] = [(u, r)]"
| "put_entry u r ((k, v) # rest) =
     (if k = u then (u, r) # rest else (k, v) # put_entry u r rest)"

definition store_put :: "string \<Rightarrow> URL \<Rightarrow> response \<Rightarrow> cache_storage \<Rightarrow> cache_storage" where
  "store_put name u r st = map (\<lambda>(n, c). if n = name then (n, put_entry u r c) else (n, c)) st"

definition cache_put :: "string \<Rightarrow> URL \<Rightarrow> response \<Rightarrow> world \<Rightarrow> world" where
  "cache_put name u r w =
     (let w1 = record_call (CachePut name u r) w
      in w1\<lparr>storage := store_put name u r (storage w1)\<rparr>)"

text \<open>The entry of one named store.\<close>

definition cache_get :: "cache_storage \<Rightarrow> string \<Rightarrow> URL \<Rightarrow> response option" where
  "cache_get st name u = (case map_of st name of None \<Rightarrow> None | Some c \<Rightarrow> map_of c u)"

text \<open>Modelled from the spec: \<open>list_names()\<close>.\<close>

definition caches_keys :: "world \<Rightarrow> string list \<times> world" where
  "caches_keys w = (map fst (storage w), record_call CachesKeys w)"

text \<open>
  Modelled from the spec: \<open>delete(name) -> bool\<close>; a deletion the platform fails
  rejects and leaves the store in place.
\<close>

definition caches_delete :: "env \<Rightarrow> string \<Rightarrow> world \<Rightarrow> bool promise \<times> world" where
  "caches_delete e name w =
     (let w1 = record_call (CachesDelete name) w
      in if delete_fails e name then (Rejected, w1)
         else (Resolved (name \<in> set (map fst (storage w1))),
               w1\<lparr>storage := filter (\<lambda>(n, c). n \<noteq> name) (storage w1)\<rparr>))"

text \<open>Modelled from the spec: \<open>fetch(request) -> response | failure\<close>.\<close>

definition fetch :: "env \<Rightarrow> URL \<Rightarrow> world \<Rightarrow> fetch_result \<times> world" where
  "fetch e u w = (network e u, record_call (Fetch u) w)"

text \<open>
  Modelled from the spec: \<open>add_all(list of request)\<close>, bulk fetch and put, all or
  nothing. One failed fetch rejects the whole call and nothing is written.
\<close>

fun fetch_all :: "(URL \<Rightarrow> fetch_result) \<Rightarrow> URL list \<Rightarrow> (URL \<times> response) list promise" where
  "fetch_all net [] = Resolved []"
| "fetch_all net (u # us) =
     (case net u of
        NetFail \<Rightarrow> Rejected
      | NetHang \<Rightarrow> (case fetch_all net us of Rejected \<Rightarrow> Rejected | _ \<Rightarrow> Pending)
      | NetOk r \<Rightarrow>
          (case fetch_all net us of
             Resolved entries \<Rightarrow> Resolved ((u, r) # entries)
           | Rejected \<Rightarrow> Rejected
           | Pending \<Rightarrow> Pending))"

definition cache_addAll :: "env \<Rightarrow> string \<Rightarrow> URL list \<Rightarrow> world \<Rightarrow> unit promise \<times> world" where
  "cache_addAll e name us w =
     (let w1 = record_call (CacheAddAll name us) w
      in case fetch_all (network e) us of
           Resolved entries \<Rightarrow>
             (Resolved (), w1\<lparr>storage := fold (\<lambda>(u, r). store_put name u r) entries (storage w1)\<rparr>)
         | Rejected \<Rightarrow> (Rejected, w1)
         | Pending \<Rightarrow> (Pending, w1))"

text \<open>
  \<open>Promise.all\<close>: rejects as soon as one member rejects, otherwise waits for all.
\<close>

fun promise_all :: "'a promise list \<Rightarrow> 'a list promise" where
  "promise_all [] = Resolved []"
| "promise_all (Rejected # ps) = Rejected"
| "promise_all (Pending # ps) = (case promise_all ps of Rejected \<Rightarrow> Rejected | _ \<Rightarrow> Pending)"
| "promise_all (Resolved x # ps) =
     (case promise_all ps of
        Resolved xs \<Rightarrow> Resolved (x # xs)
      | Rejected \<Rightarrow> Rejected
      | Pending \<Rightarrow> Pending)"

subsection \<open>Constants of the script\<close>

definition CACHE_VERSION :: string where
  "CACHE_VERSION = ''v3''"

definition CACHE_NAME :: string where
  "CACHE_NAME = ''spackler-'' @ CACHE_VERSION"

definition urlsToCache :: "string list" where
  "urlsToCache =
     [''/'',
      ''/static/index.html'',
      ''/static/offline.html'',
      ''/manifest.json'',
      ''/static/manifest.json'',
      ''/static/images/apple-touch-icon.png'',
      ''/static/images/icon-192.png'',
      ''/static/images/icon-512.png'',
      ''/static/images/gopher.jpg'',
      ''/static/images/spackler-logo.jpg'']"

subsection \<open>The install handler\<close>

text \<open>
  \<open>caches.open(CACHE_NAME).then(cache => cache.addAll(urlsToCache)).then(() => self.skipWaiting())\<close>:
  the promise handed to \<open>event.waitUntil\<close>, and the world it leaves.
\<close>

definition install :: "env \<Rightarrow> world \<Rightarrow> unit promise \<times> world" where
  "install e w =
     (let w1 = caches_open CACHE_NAME w;
          (added, w2) = cache_addAll e CACHE_NAME (map (to_URL e) urlsToCache) w1
      in case added of
           Resolved x \<Rightarrow> (Resolved (), record_call SkipWaiting w2)
         | Rejected \<Rightarrow> (Rejected, w2)
         | Pending \<Rightarrow> (Pending, w2))"

subsection \<open>The activate handler\<close>

text \<open>
  The callback of \<open>cacheNames.map\<close>, run over the enumerated names in order. Each entry
  of the result is the promise of a deletion, or \<open>undefined\<close> (here \<open>Resolved None\<close>,
  which is how \<open>Promise.all\<close> treats a plain value) for a name that is kept.
\<close>

fun delete_old :: "env \<Rightarrow> string list \<Rightarrow> world \<Rightarrow> bool option promise list \<times> world" where
  "delete_old e [] w = ([], w)"
| "delete_old e (cacheName # rest) w =
     (if cacheName \<noteq> CACHE_NAME \<and> startsWith cacheName ''spackler-'' then
        (let (d, w1) = caches_delete e cacheName w;
             (ds, w2) = delete_old e rest w1
         in ((case d of Resolved b \<Rightarrow> Resolved (Some b) | Rejected \<Rightarrow> Rejected | Pending \<Rightarrow> Pending) # ds, w2))
      else
        (let (ds, w2) = delete_old e rest w
         in (Resolved None # ds, w2)))"

definition activate :: "env \<Rightarrow> world \<Rightarrow> unit promise \<times> world" where
  "activate e w =
     (let (cacheNames, w1) = caches_keys w;
          (ds, w2) = delete_old e cacheNames w1
      in case promise_all ds of
           Resolved x \<Rightarrow> (Resolved (), record_call ClientsClaim w2)
         | Rejected \<Rightarrow> (Rejected, w2)
         | Pending \<Rightarrow> (Pending, w2))"

subsection \<open>The fetch handler\<close>

text \<open>
  The handler either returns without calling \<open>respondWith\<close> (the browser then performs
  the request itself) or hands \<open>respondWith\<close> a value.
\<close>

datatype interception = NotIntercepted | RespondWith jsval

text \<open>
  The callback both strategies attach to the network fetch:
  \<open>response => { const clone = response.clone();
     caches.open(CACHE_NAME).then(cache => cache.put(event.request, clone)); return response; }\<close>.
  A clone is a copy of the response; its value is the response's value.
\<close>

definition clone :: "response \<Rightarrow> response" where
  "clone response = response"

definition cache_and_return :: "URL \<Rightarrow> response \<Rightarrow> world \<Rightarrow> jsval \<times> world" where
  "cache_and_return u response w =
     (let c = clone response;
          w1 = caches_open CACHE_NAME w;
          w2 = cache_put CACHE_NAME u c w1
      in (Resp response, w2))"

text \<open>
  The world returned is the one left when the handler's own background work (the store
  write after a resolved fetch) has run; other events are not interleaved.
\<close>

definition fetch_handler :: "env \<Rightarrow> request \<Rightarrow> world \<Rightarrow> interception \<times> world" where
  "fetch_handler e req w =
     (if req_method req \<noteq> ''GET'' then (NotIntercepted, w)
      else if startsWith (pathname (url req)) ''/api/'' then (NotIntercepted, w)
      else if mode req = ''navigate'' then
        (let (res, w1) = fetch e (url req) w
         in case res of
              NetOk response \<Rightarrow>
                (let (v, w2) = cache_and_return (url req) response w1
                 in (RespondWith (Promise (Resolved v)), w2))
            | NetHang \<Rightarrow> (RespondWith (Promise Pending), w1)
            | NetFail \<Rightarrow>
                (let (cached, w2) = caches_match (url req) w1
                 in if truthy (js cached) then (RespondWith (Promise (Resolved (js cached))), w2)
                    else
                      (let (off, w3) = caches_match (to_URL e ''/static/offline.html'') w2
                       in (RespondWith (Promise (Resolved (Promise (Resolved (js off))))), w3))))
      else
        (let (cached, w1) = caches_match (url req) w;
             (res, w2) = fetch e (url req) w1;
             (settled, w3) =
               (case res of
                  NetOk response \<Rightarrow>
                    (let (v, w') = cache_and_return (url req) response w2 in (Resolved v, w'))
                | NetFail \<Rightarrow> (Resolved Null, w2)
                | NetHang \<Rightarrow> (Pending, w2));
             fetchPromise = Promise settled
         in if truthy (js cached) then (RespondWith (Promise (Resolved (js cached))), w3)
            else if truthy fetchPromise then (RespondWith (Promise (Resolved fetchPromise)), w3)
            else
              (let (off, w4) = caches_match (to_URL e ''/static/offline.html'') w3
               in (RespondWith (Promise (Resolved (Promise (Resolved (js off))))), w4))))"

subsection \<open>The message handler\<close>

text \<open>\<open>if (event.data === 'skipWaiting') self.skipWaiting()\<close>; any other message is ignored.\<close>

definition message :: "string \<Rightarrow> world \<Rightarrow> world" where
  "message data w = (if data = ''skipWaiting'' then record_call SkipWaiting w else w)"

subsection \<open>Observations\<close>

text \<open>
  What the page receives for a request the handler has answered; \<open>None\<close> when the
  handler did not intercept the request.
\<close>

definition responded :: "interception \<Rightarrow> delivered option" where
  "responded i = (case i of NotIntercepted \<Rightarrow> None | RespondWith v \<Rightarrow> Some (settle v))"

text \<open>The platform calls made between an earlier world and a later one.\<close>

definition calls_since :: "world \<Rightarrow> world \<Rightarrow> call list" where
  "calls_since w w' = drop (length (trace w)) (trace w')"

subsection \<open>Concrete requests, environments and worlds\<close>

definition site :: string where
  "site = ''https://spackler.example''"

definition at_site :: "string \<Rightarrow> URL" where
  "at_site p = \<lparr>origin = site, pathname = p, search = ''''\<rparr>"

definition offline_doc :: response where
  "offline_doc = \<lparr>status = 200, body = ''You are offline''\<rparr>"

definition old_page :: response where
  "old_page = \<lparr>status = 200, body = ''leaderboard of last week''\<rparr>"

definition fresh_page :: response where
  "fresh_page = \<lparr>status = 200, body = ''leaderboard of today''\<rparr>"

definition old_gopher :: response where
  "old_gopher = \<lparr>status = 200, body = ''gopher, first picture''\<rparr>"

definition not_found :: response where
  "not_found = \<lparr>status = 404, body = ''Not Found''\<rparr>"

definition page_request :: request where
  "page_request = \<lparr>req_method = ''GET'', url = at_site ''/'', mode = ''navigate''\<rparr>"

definition gopher_request :: request where
  "gopher_request =
     \<lparr>req_method = ''GET'', url = at_site ''/static/images/gopher.jpg'', mode = ''no-cors''\<rparr>"

definition script_request :: request where
  "script_request = \<lparr>req_method = ''GET'', url = at_site ''/static/app.js'', mode = ''no-cors''\<rparr>"

definition api_page_request :: request where
  "api_page_request = \<lparr>req_method = ''GET'', url = at_site ''/api/report'', mode = ''navigate''\<rparr>"

definition api_data_request :: request where
  "api_data_request = \<lparr>req_method = ''GET'', url = at_site ''/api/scores'', mode = ''cors''\<rparr>"

definition post_request :: request where
  "post_request = \<lparr>req_method = ''POST'', url = at_site ''/submit'', mode = ''navigate''\<rparr>"

definition offline_env :: env where
  "offline_env = \<lparr>self_origin = site, network = (\<lambda>u. NetFail), delete_fails = (\<lambda>n. False)\<rparr>"

definition hanging_env :: env where
  "hanging_env = \<lparr>self_origin = site, network = (\<lambda>u. NetHang), delete_fails = (\<lambda>n. False)\<rparr>"

definition serving :: "response \<Rightarrow> env" where
  "serving r = \<lparr>self_origin = site, network = (\<lambda>u. NetOk r), delete_fails = (\<lambda>n. False)\<rparr>"

definition index_down_env :: env where
  "index_down_env =
     \<lparr>self_origin = site,
      network = (\<lambda>u. if u = at_site ''/static/index.html'' then NetFail else NetOk fresh_page),
      delete_fails = (\<lambda>n. False)\<rparr>"

definition stuck_v1_env :: env where
  "stuck_v1_env =
     \<lparr>self_origin = site, network = (\<lambda>u. NetFail), delete_fails = (\<lambda>n. n = ''spackler-v1'')\<rparr>"

definition empty_world :: world where
  "empty_world = \<lparr>storage = [], trace = []\<rparr>"

definition installed :: world where
  "installed =
     \<lparr>storage =
        [(''spackler-v3'',
          [(at_site ''/static/offline.html'', offline_doc),
           (at_site ''/static/images/gopher.jpg'', old_gopher)])],
      trace = []\<rparr>"

definition several_generations :: world where
  "several_generations =
     \<lparr>storage =
        [(''spackler-v2'', [(at_site ''/'', old_page)]),
         (''fonts'', [(at_site ''/static/font.woff'', \<lparr>status = 200, body = ''woff''\<rparr>)]),
         (''spackler-v3'', [(at_site ''/static/offline.html'', offline_doc)]),
         (''spackler-v1'', [])],
      trace = []\<rparr>"

definition with_page_store :: world where
  "with_page_store =
     \<lparr>storage =
        [(''spackler-v3'', [(at_site ''/static/offline.html'', offline_doc)]),
         (''scores-of-the-page'', [(at_site ''/api/scores'', old_page)])],
      trace = []\<rparr>"

section \<open>Auxiliary facts\<close>

subsection \<open>Promises\<close>

lemma promise_all_rejected: "(promise_all ps = Rejected) = (Rejected \<in> set ps)"
  by (induction ps rule: promise_all.induct) (auto split: promise.splits)

lemma promise_all_pending:
  "(promise_all ps = Pending) = (Rejected \<notin> set ps \<and> Pending \<in> set ps)"
  by (induction ps rule: promise_all.induct)
    (auto split: promise.splits simp: promise_all_rejected [symmetric])

subsection \<open>Stores\<close>

lemma filter_own_names:
  "filter (\<lambda>(n, c). \<not> (n \<in> set (map fst st) \<and> P n)) st = filter (\<lambda>(n, c). \<not> P n) st"
  by (rule filter_cong) force+

lemma map_of_filter_kept:
  "P k \<Longrightarrow> map_of (filter (\<lambda>(n, c). P n) st) k = map_of st k"
  by (induction st) auto

lemma store_put_names: "map fst (store_put name u r st) = map fst st"
  by (induction st) (auto simp: store_put_def)

lemma store_put_name_set: "fst ` set (store_put name u r st) = fst ` set st"
  by (simp add: store_put_names flip: set_map)

lemma map_of_put_entry: "map_of (put_entry u r c) u' = (if u' = u then Some r else map_of c u')"
  by (induction c) auto

lemma cache_get_store_put:
  "cache_get (store_put name u r st) name u' =
     (if u' = u \<and> name \<in> set (map fst st) then Some r else cache_get st name u')"
  by (induction st) (auto simp: store_put_def cache_get_def map_of_put_entry split: option.splits)

lemma cache_get_fold_other:
  "u' \<notin> fst ` set entries \<Longrightarrow>
     cache_get (fold (\<lambda>(u, r). store_put name u r) entries st) name u' = cache_get st name u'"
  by (induction entries arbitrary: st) (auto simp: cache_get_store_put)

lemma cache_get_fold:
  "name \<in> set (map fst st) \<Longrightarrow> \<forall>(u, r) \<in> set entries. net u = NetOk r \<Longrightarrow>
   u' \<in> fst ` set entries \<Longrightarrow> net u' = NetOk r' \<Longrightarrow>
     cache_get (fold (\<lambda>(u, r). store_put name u r) entries st) name u' = Some r'"
proof (induction entries arbitrary: st)
  case Nil
  then show ?case by simp
next
  case (Cons a entries)
  obtain u r where a: "a = (u, r)" by (cases a)
  show ?case
  proof (cases "u' \<in> fst ` set entries")
    case True
    with Cons a show ?thesis by (simp add: store_put_name_set)
  next
    case False
    with Cons.prems a have "u' = u" "r = r'" by auto
    with False Cons.prems(1) a show ?thesis
      by (simp add: cache_get_fold_other cache_get_store_put)
  qed
qed

lemma storage_match_store_put:
  "name \<in> set (map fst st) \<Longrightarrow> \<forall>(n, c) \<in> set st. n \<noteq> name \<longrightarrow> map_of c u = None \<Longrightarrow>
     storage_match (store_put name u r st) u = Some r"
proof (induction st)
  case Nil
  then show ?case by simp
next
  case (Cons a st)
  obtain n c where a: "a = (n, c)" by (cases a)
  show ?case
  proof (cases "n = name")
    case True
    with a show ?thesis by (simp add: store_put_def map_of_put_entry)
  next
    case False
    with Cons.prems a have "name \<in> set (map fst st)" "map_of c u = None" by auto
    with Cons a False show ?thesis by (simp add: store_put_def)
  qed
qed

lemma caches_open_names: "CACHE_NAME \<in> set (map fst (storage (caches_open CACHE_NAME w)))"
  by (simp add: caches_open_def record_call_def Let_def)

lemma caches_open_storage:
  "storage (caches_open name w) =
     (if name \<in> set (map fst (storage w)) then storage w else storage w @ [(name, [])])"
  by (simp add: caches_open_def record_call_def Let_def)

subsection \<open>Bulk population\<close>

lemma fetch_all_rejected:
  "(fetch_all net us = Rejected) = (\<exists>u \<in> set us. net u = NetFail)"
  by (induction us) (auto split: fetch_result.splits promise.splits)

lemma fetch_all_resolved:
  "fetch_all net us = Resolved entries \<Longrightarrow>
     map fst entries = us \<and> (\<forall>(u, r) \<in> set entries. net u = NetOk r)"
  by (induction us arbitrary: entries) (auto split: fetch_result.splits promise.splits)

lemma fetch_all_ok:
  "\<forall>u \<in> set us. \<exists>r. net u = NetOk r \<Longrightarrow> \<exists>entries. fetch_all net us = Resolved entries"
  by (induction us) (auto split: fetch_result.splits promise.splits)

lemma fold_store_put_names:
  "map fst (fold (\<lambda>(u, r). store_put name u r) entries st) = map fst st"
  by (induction entries arbitrary: st) (auto simp: store_put_names)

text \<open>Whatever its outcome, install leaves the current generation's store in place.\<close>

lemma install_opens_current: "CACHE_NAME \<in> set (map fst (storage (snd (install e w))))"
proof -
  have "map fst (storage (snd (install e w))) = map fst (storage (caches_open CACHE_NAME w))"
    by (simp add: install_def cache_addAll_def record_call_def Let_def fold_store_put_names
        split: promise.splits)
  then show ?thesis
    by (simp only: caches_open_names)
qed

subsection \<open>The deletion loop of activate\<close>

lemma delete_old_storage:
  "storage (snd (delete_old e ns w)) =
     filter (\<lambda>(n, c). \<not> (n \<in> set ns \<and> n \<noteq> CACHE_NAME \<and> startsWith n ''spackler-'' \<and> \<not> delete_fails e n))
       (storage w)"
proof (induction ns arbitrary: w)
  case Nil
  then show ?case by simp
next
  case (Cons a ns)
  show ?case
    apply (simp add: Cons caches_delete_def record_call_def split_beta Let_def)
    apply (auto intro!: filter_cong)
    done
qed

lemma delete_old_trace:
  "trace (snd (delete_old e ns w)) =
     trace w @ map CachesDelete (filter (\<lambda>n. n \<noteq> CACHE_NAME \<and> startsWith n ''spackler-'') ns)"
proof (induction ns arbitrary: w)
  case Nil
  then show ?case by simp
next
  case (Cons a ns)
  show ?case
    by (simp add: Cons caches_delete_def record_call_def split_beta Let_def)
qed

lemma delete_old_rejected:
  "(Rejected \<in> set (fst (delete_old e ns w))) =
     (\<exists>n \<in> set ns. n \<noteq> CACHE_NAME \<and> startsWith n ''spackler-'' \<and> delete_fails e n)"
proof (induction ns arbitrary: w)
  case Nil
  then show ?case by simp
next
  case (Cons a ns)
  show ?case
    by (simp add: Cons caches_delete_def record_call_def split_beta Let_def)
qed

lemma delete_old_not_pending: "Pending \<notin> set (fst (delete_old e ns w))"
proof (induction ns arbitrary: w)
  case Nil
  then show ?case by simp
next
  case (Cons a ns)
  show ?case
    by (simp add: Cons caches_delete_def record_call_def split_beta Let_def)
qed

lemma activate_storage:
  "storage (snd (activate e w)) =
     filter (\<lambda>(n, c). \<not> (n \<noteq> CACHE_NAME \<and> startsWith n ''spackler-'' \<and> \<not> delete_fails e n))
       (storage w)"
proof -
  have "storage (snd (activate e w)) =
      storage (snd (delete_old e (map fst (storage w)) (record_call CachesKeys w)))"
    by (simp add: activate_def caches_keys_def split_beta record_call_def split: promise.splits)
  also have "\<dots> = filter (\<lambda>(n, c). \<not> (n \<in> set (map fst (storage w))
        \<and> (n \<noteq> CACHE_NAME \<and> startsWith n ''spackler-'' \<and> \<not> delete_fails e n))) (storage w)"
    by (simp add: delete_old_storage record_call_def)
  finally show ?thesis
    by (simp only: filter_own_names)
qed

lemma activate_result:
  "fst (activate e w) =
     (if \<exists>n \<in> set (map fst (storage w)). n \<noteq> CACHE_NAME \<and> startsWith n ''spackler-'' \<and> delete_fails e n
      then Rejected else Resolved ())"
proof -
  let ?ds = "fst (delete_old e (map fst (storage w)) (record_call CachesKeys w))"
  have r: "(promise_all ?ds = Rejected) =
      (\<exists>n \<in> set (map fst (storage w)). n \<noteq> CACHE_NAME \<and> startsWith n ''spackler-'' \<and> delete_fails e n)"
    by (simp only: promise_all_rejected delete_old_rejected)
  have p: "promise_all ?ds \<noteq> Pending"
    by (simp add: promise_all_pending delete_old_not_pending)
  show ?thesis
    using r p by (cases "promise_all ?ds") (simp_all add: activate_def caches_keys_def split_beta)
qed

lemma activate_trace:
  "trace (snd (activate e w)) =
     trace w @ CachesKeys #
       map CachesDelete (filter (\<lambda>n. n \<noteq> CACHE_NAME \<and> startsWith n ''spackler-'') (map fst (storage w)))
       @ (if fst (activate e w) = Resolved () then [ClientsClaim] else [])"
  by (simp add: activate_def caches_keys_def split_beta delete_old_trace record_call_def
      split: promise.splits)

subsection \<open>The two strategies of the fetch handler\<close>

lemma cache_and_return_storage:
  "storage (snd (cache_and_return u r w)) =
     store_put CACHE_NAME u r (storage (caches_open CACHE_NAME w))"
  by (simp add: cache_and_return_def cache_put_def record_call_def clone_def Let_def)

lemma cache_and_return_trace:
  "trace (snd (cache_and_return u r w)) = trace w @ [CachesOpen CACHE_NAME, CachePut CACHE_NAME u r]"
  by (simp add: cache_and_return_def cache_put_def caches_open_def record_call_def clone_def Let_def)

lemma cache_and_return_get:
  "cache_get (storage (snd (cache_and_return u r w))) CACHE_NAME u = Some r"
  using caches_open_names [of w] by (simp add: cache_and_return_storage cache_get_store_put)

lemma cache_and_return_match:
  assumes "\<forall>(n, c) \<in> set (storage w). n \<noteq> CACHE_NAME \<longrightarrow> map_of c u = None"
  shows "storage_match (storage (snd (cache_and_return u r w))) u = Some r"
  unfolding cache_and_return_storage
  by (rule storage_match_store_put [OF caches_open_names])
    (use assms in \<open>auto simp: caches_open_storage\<close>)

text \<open>
  The value handed to \<open>respondWith\<close> and the world left behind, for a GET request outside
  \<open>/api/\<close>: first for a navigation, then for every other request.
\<close>

lemma navigate_value:
  assumes "req_method req = ''GET''" and "\<not> startsWith (pathname (url req)) ''/api/''"
    and "mode req = ''navigate''"
  shows "fst (fetch_handler e req w) =
     RespondWith (Promise
       (case network e (url req) of
          NetOk r \<Rightarrow> Resolved (Resp r)
        | NetHang \<Rightarrow> Pending
        | NetFail \<Rightarrow>
            Resolved (case storage_match (storage w) (url req) of
                        Some cached \<Rightarrow> Resp cached
                      | None \<Rightarrow>
                          Promise (Resolved (js (storage_match (storage w)
                            (to_URL e ''/static/offline.html'')))))))"
  using assms
  by (cases "network e (url req)"; cases "storage_match (storage w) (url req)")
    (simp_all add: fetch_handler_def fetch_def caches_match_def record_call_def
      cache_and_return_def Let_def)

lemma navigate_world:
  assumes "req_method req = ''GET''" and "\<not> startsWith (pathname (url req)) ''/api/''"
    and "mode req = ''navigate''"
  shows "snd (fetch_handler e req w) =
     (case network e (url req) of
        NetOk r \<Rightarrow> snd (cache_and_return (url req) r (record_call (Fetch (url req)) w))
      | NetHang \<Rightarrow> record_call (Fetch (url req)) w
      | NetFail \<Rightarrow>
          (case storage_match (storage w) (url req) of
             Some cached \<Rightarrow> record_call (CachesMatch (url req)) (record_call (Fetch (url req)) w)
           | None \<Rightarrow>
               record_call (CachesMatch (to_URL e ''/static/offline.html''))
                 (record_call (CachesMatch (url req)) (record_call (Fetch (url req)) w))))"
  using assms
  by (cases "network e (url req)"; cases "storage_match (storage w) (url req)")
    (simp_all add: fetch_handler_def fetch_def caches_match_def record_call_def split_beta)

lemma revalidate_value:
  assumes "req_method req = ''GET''" and "\<not> startsWith (pathname (url req)) ''/api/''"
    and "mode req \<noteq> ''navigate''"
  shows "fst (fetch_handler e req w) =
     RespondWith (Promise (Resolved
       (case storage_match (storage w) (url req) of
          Some cached \<Rightarrow> Resp cached
        | None \<Rightarrow>
            Promise (case network e (url req) of
                       NetOk r \<Rightarrow> Resolved (Resp r)
                     | NetFail \<Rightarrow> Resolved Null
                     | NetHang \<Rightarrow> Pending))))"
  using assms
  by (cases "network e (url req)"; cases "storage_match (storage w) (url req)")
    (simp_all add: fetch_handler_def fetch_def caches_match_def record_call_def
      cache_and_return_def Let_def)

lemma revalidate_world:
  assumes "req_method req = ''GET''" and "\<not> startsWith (pathname (url req)) ''/api/''"
    and "mode req \<noteq> ''navigate''"
  shows "snd (fetch_handler e req w) =
     (case network e (url req) of
        NetOk r \<Rightarrow>
          snd (cache_and_return (url req) r
            (record_call (Fetch (url req)) (record_call (CachesMatch (url req)) w)))
      | NetFail \<Rightarrow> record_call (Fetch (url req)) (record_call (CachesMatch (url req)) w)
      | NetHang \<Rightarrow> record_call (Fetch (url req)) (record_call (CachesMatch (url req)) w))"
  using assms
  by (cases "network e (url req)"; cases "storage_match (storage w) (url req)")
    (simp_all add: fetch_handler_def fetch_def caches_match_def record_call_def split_beta)

text \<open>The fetch handler removes no store.\<close>

lemma cache_and_return_names:
  "set (map fst (storage w)) \<subseteq> set (map fst (storage (snd (cache_and_return u r w))))"
  by (auto simp: cache_and_return_storage store_put_name_set caches_open_storage)

lemma fetch_handler_keeps_stores:
  "set (map fst (storage w)) \<subseteq> set (map fst (storage (snd (fetch_handler e req w))))"
proof (cases "req_method req = ''GET'' \<and> \<not> startsWith (pathname (url req)) ''/api/''")
  case False
  then show ?thesis
    by (auto simp: fetch_handler_def)
next
  case True
  then have g: "req_method req = ''GET''" "\<not> startsWith (pathname (url req)) ''/api/''"
    by simp_all
  show ?thesis
  proof (cases "mode req = ''navigate''")
    case True
    show ?thesis
      using cache_and_return_names [of "record_call (Fetch (url req)) w"]
      by (simp add: navigate_world [OF g True] record_call_def
          split: fetch_result.splits option.splits)
  next
    case False
    show ?thesis
      using cache_and_return_names
        [of "record_call (Fetch (url req)) (record_call (CachesMatch (url req)) w)"]
      by (simp add: revalidate_world [OF g False] record_call_def split: fetch_result.splits)
  qed
qed

text \<open>
  In the last strategy the third operand of
  \<open>cached || fetchPromise || caches.match('/static/offline.html')\<close> is never evaluated:
  the offline document is not looked up, whatever the store and the network do.
\<close>

lemma revalidate_never_reads_offline:
  assumes "req_method req = ''GET''" and "\<not> startsWith (pathname (url req)) ''/api/''"
    and "mode req \<noteq> ''navigate''"
  shows "calls_since w (snd (fetch_handler e req w)) =
     [CachesMatch (url req), Fetch (url req)] @
     (case network e (url req) of
        NetOk r \<Rightarrow> [CachesOpen CACHE_NAME, CachePut CACHE_NAME (url req) r]
      | NetFail \<Rightarrow> []
      | NetHang \<Rightarrow> [])"
  by (cases "network e (url req)")
    (simp_all add: revalidate_world [OF assms] cache_and_return_trace calls_since_def
      record_call_def)

section \<open>The claims\<close>

subsection \<open>C1: the offline document for an uncached asset\<close>

text \<open>
  C1 says: for a non-navigation GET request outside \<open>/api/\<close> with no cached value, when
  the network fetch fails the response equals the offline document
  \<open>/static/offline.html\<close>, given that the document is in the store.
  The handler does not do this. \<open>fetchPromise\<close> is a Promise object and therefore
  truthy, so \<open>cached || fetchPromise || caches.match('/static/offline.html')\<close> yields
  \<open>fetchPromise\<close>, which the \<open>catch\<close> resolves to \<open>null\<close>: the page gets a network
  error although the offline document is stored, and the document is never looked up.
  The theorem runs the handler on a request for \<open>/static/app.js\<close> with the network
  down and a store that holds the offline document.
\<close>

theorem offline_fallback_unreached:
  "req_method script_request = ''GET''
   \<and> \<not> startsWith (pathname (url script_request)) ''/api/''
   \<and> mode script_request \<noteq> ''navigate''
   \<and> storage_match (storage installed) (url script_request) = None
   \<and> network offline_env (url script_request) = NetFail
   \<and> storage_match (storage installed) (to_URL offline_env ''/static/offline.html'') = Some offline_doc
   \<and> fst (fetch_handler offline_env script_request installed) =
       RespondWith (Promise (Resolved (Promise (Resolved Null))))
   \<and> responded (fst (fetch_handler offline_env script_request installed)) = Some NetworkError
   \<and> calls_since installed (snd (fetch_handler offline_env script_request installed)) =
       [CachesMatch (url script_request), Fetch (url script_request)]"
  by (simp add: fetch_handler_def fetch_def caches_match_def record_call_def responded_def
      calls_since_def script_request_def installed_def offline_env_def at_site_def to_URL_def
      Let_def)

subsection \<open>C2: one generation after activate\<close>

text \<open>
  C2. When activate completes (its promise resolves) on a storage that holds the current
  generation's store, the store names with the prefix \<open>spackler-\<close> are exactly the one
  name \<open>CACHE_NAME\<close>: every other store with the prefix is gone, and the current store
  keeps its content. The current store is there whenever activate runs: install opens it
  (\<open>install_opens_current\<close>), the worker is activated only after install, and the fetch
  handler removes no store (\<open>fetch_handler_keeps_stores\<close>).
\<close>

theorem activate_leaves_current_only:
  assumes "fst (activate e w) = Resolved ()"
    and "CACHE_NAME \<in> set (map fst (storage w))"
  shows "{n \<in> set (map fst (storage (snd (activate e w)))). startsWith n ''spackler-''} = {CACHE_NAME}
       \<and> (\<forall>n \<in> set (map fst (storage w)).
            startsWith n ''spackler-'' \<and> n \<noteq> CACHE_NAME
            \<longrightarrow> n \<notin> set (map fst (storage (snd (activate e w)))))
       \<and> map_of (storage (snd (activate e w))) CACHE_NAME = map_of (storage w) CACHE_NAME"
proof -
  have ok: "\<forall>n \<in> set (map fst (storage w)).
      n \<noteq> CACHE_NAME \<and> startsWith n ''spackler-'' \<longrightarrow> \<not> delete_fails e n"
    using assms(1) by (auto simp: activate_result split: if_splits)
  have cur: "startsWith CACHE_NAME ''spackler-''"
    by (simp add: CACHE_NAME_def CACHE_VERSION_def)
  have names: "set (map fst (storage (snd (activate e w)))) =
      {n \<in> set (map fst (storage w)). \<not> (n \<noteq> CACHE_NAME \<and> startsWith n ''spackler-'')}"
    using ok by (force simp: activate_storage)
  have m: "map_of (storage (snd (activate e w))) CACHE_NAME = map_of (storage w) CACHE_NAME"
    unfolding activate_storage by (rule map_of_filter_kept) simp
  show ?thesis
    using names cur assms(2) m by auto
qed

text \<open>
  Witness for C2: three generations and an unrelated store; activate resolves and leaves
  \<open>fonts\<close> and \<open>spackler-v3\<close>.
\<close>

theorem activate_leaves_current_only_witness:
  "fst (activate offline_env several_generations) = Resolved ()
   \<and> CACHE_NAME \<in> set (map fst (storage several_generations))
   \<and> {n \<in> set (map fst (storage (snd (activate offline_env several_generations)))).
        startsWith n ''spackler-''} = {''spackler-v3''}
   \<and> map fst (storage (snd (activate offline_env several_generations))) = [''fonts'', ''spackler-v3'']"
proof -
  have a: "fst (activate offline_env several_generations) = Resolved ()"
    by (simp add: activate_def caches_keys_def caches_delete_def record_call_def
        several_generations_def offline_env_def CACHE_NAME_def CACHE_VERSION_def Let_def)
  have b: "CACHE_NAME \<in> set (map fst (storage several_generations))"
    by (simp add: several_generations_def CACHE_NAME_def CACHE_VERSION_def)
  have c: "map fst (storage (snd (activate offline_env several_generations))) = [''fonts'', ''spackler-v3'']"
    by (simp add: activate_def caches_keys_def caches_delete_def record_call_def
        several_generations_def offline_env_def CACHE_NAME_def CACHE_VERSION_def Let_def)
  show ?thesis
    using activate_leaves_current_only [OF a b] a b c
    by (simp add: CACHE_NAME_def CACHE_VERSION_def)
qed

subsection \<open>C3: a navigation with the network down\<close>

text \<open>
  C3 as stated speaks of every navigation request. A navigation whose path is under
  \<open>/api/\<close> (or whose method is not GET) is not intercepted at all, so nothing is
  served from the store for it: with the network down, a GET navigation to
  \<open>/api/report\<close> is left to the browser although the offline document is stored.
\<close>

theorem navigation_fallback_counterexample:
  "mode api_page_request = ''navigate''
   \<and> network offline_env (url api_page_request) = NetFail
   \<and> storage_match (storage installed) (url api_page_request) = None
   \<and> storage_match (storage installed) (to_URL offline_env ''/static/offline.html'') = Some offline_doc
   \<and> fetch_handler offline_env api_page_request installed = (NotIntercepted, installed)
   \<and> responded (fst (fetch_handler offline_env api_page_request installed)) \<noteq> Some (Delivered offline_doc)"
  by (simp add: fetch_handler_def responded_def api_page_request_def installed_def offline_env_def
      at_site_def to_URL_def)

text \<open>
  C3, amended: for every GET navigation request whose path is not under \<open>/api/\<close>, when
  the network fetch fails the page receives the stored response for that exact request if
  one exists, otherwise the stored offline document \<open>/static/offline.html\<close>, and if
  neither exists a network error. The stores are left unchanged.
\<close>

theorem navigation_offline_fallback:
  assumes "req_method req = ''GET''" and "\<not> startsWith (pathname (url req)) ''/api/''"
    and "mode req = ''navigate''" and "network e (url req) = NetFail"
  shows "responded (fst (fetch_handler e req w)) =
           Some (case storage_match (storage w) (url req) of
                   Some cached \<Rightarrow> Delivered cached
                 | None \<Rightarrow>
                     (case storage_match (storage w) (to_URL e ''/static/offline.html'') of
                        Some off \<Rightarrow> Delivered off
                      | None \<Rightarrow> NetworkError))
       \<and> storage (snd (fetch_handler e req w)) = storage w"
  using assms(4)
  by (simp add: navigate_value [OF assms(1-3)] navigate_world [OF assms(1-3)] responded_def
      record_call_def split: option.splits)

text \<open>
  Witness for C3: the page \<open>/\<close> with the network down is answered with the stored page
  when there is one, with the offline document when only that is stored, and fails on an
  empty storage.
\<close>

theorem navigation_offline_fallback_witness:
  "req_method page_request = ''GET''
   \<and> \<not> startsWith (pathname (url page_request)) ''/api/''
   \<and> mode page_request = ''navigate''
   \<and> network offline_env (url page_request) = NetFail
   \<and> responded (fst (fetch_handler offline_env page_request several_generations)) = Some (Delivered old_page)
   \<and> responded (fst (fetch_handler offline_env page_request installed)) = Some (Delivered offline_doc)
   \<and> responded (fst (fetch_handler offline_env page_request empty_world)) = Some NetworkError"
  using navigation_offline_fallback [of page_request offline_env several_generations]
    navigation_offline_fallback [of page_request offline_env installed]
    navigation_offline_fallback [of page_request offline_env empty_world]
  by (simp add: page_request_def offline_env_def several_generations_def installed_def
      empty_world_def at_site_def to_URL_def)

subsection \<open>C4: requests that are not intercepted\<close>

text \<open>
  C4. A request whose method is not GET, or whose path starts with \<open>/api/\<close>, is not
  intercepted, and the handler leaves the world as it found it: every store is unchanged
  and no platform call (no store read, no store write, no fetch) has been made.
\<close>

theorem fetch_passthrough:
  "req_method req \<noteq> ''GET'' \<or> startsWith (pathname (url req)) ''/api/''
   \<Longrightarrow> fetch_handler e req w = (NotIntercepted, w)"
  by (auto simp: fetch_handler_def)

text \<open>Witness for C4: a form POST, and a GET for \<open>/api/scores\<close> that a store holds.\<close>

theorem fetch_passthrough_witness:
  "req_method post_request \<noteq> ''GET''
   \<and> fetch_handler (serving fresh_page) post_request installed = (NotIntercepted, installed)
   \<and> startsWith (pathname (url api_data_request)) ''/api/''
   \<and> fetch_handler (serving fresh_page) api_data_request with_page_store = (NotIntercepted, with_page_store)"
  using fetch_passthrough [of post_request "serving fresh_page" installed]
    fetch_passthrough [of api_data_request "serving fresh_page" with_page_store]
  by (simp add: post_request_def api_data_request_def at_site_def)

subsection \<open>C5: install is all or nothing\<close>

text \<open>
  C5. If the fetch of one manifest entry fails, the promise of install rejects, nothing is
  written (the storage is the one \<open>caches.open\<close> left: the current store as it was, or
  created empty) and \<open>skipWaiting\<close> is not called. If every manifest entry is fetched,
  install resolves, every entry is in the current store with the response the network
  gave, and \<open>skipWaiting\<close> is the call that follows \<open>addAll\<close>.
\<close>

theorem install_all_or_nothing:
  "((\<exists>p \<in> set urlsToCache. network e (to_URL e p) = NetFail) \<longrightarrow>
      fst (install e w) = Rejected
    \<and> storage (snd (install e w)) =
        (if CACHE_NAME \<in> set (map fst (storage w)) then storage w else storage w @ [(CACHE_NAME, [])])
    \<and> calls_since w (snd (install e w)) =
        [CachesOpen CACHE_NAME, CacheAddAll CACHE_NAME (map (to_URL e) urlsToCache)])
   \<and> ((\<forall>p \<in> set urlsToCache. \<exists>r. network e (to_URL e p) = NetOk r) \<longrightarrow>
      fst (install e w) = Resolved ()
    \<and> (\<forall>p \<in> set urlsToCache. \<forall>r. network e (to_URL e p) = NetOk r \<longrightarrow>
         cache_get (storage (snd (install e w))) CACHE_NAME (to_URL e p) = Some r)
    \<and> calls_since w (snd (install e w)) =
        [CachesOpen CACHE_NAME, CacheAddAll CACHE_NAME (map (to_URL e) urlsToCache), SkipWaiting])"
proof (intro conjI impI)
  let ?us = "map (to_URL e) urlsToCache"
  assume "\<exists>p \<in> set urlsToCache. network e (to_URL e p) = NetFail"
  then have rej: "fetch_all (network e) ?us = Rejected"
    by (simp add: fetch_all_rejected)
  show "fst (install e w) = Rejected"
    by (simp add: install_def cache_addAll_def rej Let_def)
  show "storage (snd (install e w)) =
        (if CACHE_NAME \<in> set (map fst (storage w)) then storage w else storage w @ [(CACHE_NAME, [])])"
    by (simp add: install_def cache_addAll_def rej Let_def caches_open_def record_call_def)
  show "calls_since w (snd (install e w)) = [CachesOpen CACHE_NAME, CacheAddAll CACHE_NAME ?us]"
    by (simp add: install_def cache_addAll_def rej Let_def caches_open_def record_call_def
        calls_since_def)
next
  let ?us = "map (to_URL e) urlsToCache"
  assume "\<forall>p \<in> set urlsToCache. \<exists>r. network e (to_URL e p) = NetOk r"
  then have "\<forall>u \<in> set ?us. \<exists>r. network e u = NetOk r" by simp
  then obtain entries where res: "fetch_all (network e) ?us = Resolved entries"
    using fetch_all_ok by blast
  have ent: "map fst entries = ?us" "\<forall>(u, r) \<in> set entries. network e u = NetOk r"
    using fetch_all_resolved [OF res] by simp_all
  show "fst (install e w) = Resolved ()"
    by (simp add: install_def cache_addAll_def res Let_def)
  show "calls_since w (snd (install e w)) =
      [CachesOpen CACHE_NAME, CacheAddAll CACHE_NAME ?us, SkipWaiting]"
    by (simp add: install_def cache_addAll_def res Let_def caches_open_def record_call_def
        calls_since_def)
  have st: "storage (snd (install e w)) =
      fold (\<lambda>(u, r). store_put CACHE_NAME u r) entries (storage (caches_open CACHE_NAME w))"
    by (simp add: install_def cache_addAll_def res Let_def record_call_def)
  show "\<forall>p \<in> set urlsToCache. \<forall>r. network e (to_URL e p) = NetOk r \<longrightarrow>
         cache_get (storage (snd (install e w))) CACHE_NAME (to_URL e p) = Some r"
  proof (intro ballI allI impI)
    fix p r
    assume p: "p \<in> set urlsToCache" and r: "network e (to_URL e p) = NetOk r"
    have "to_URL e p \<in> set (map fst entries)"
      using p ent(1) by simp
    then have "to_URL e p \<in> fst ` set entries" by simp
    then show "cache_get (storage (snd (install e w))) CACHE_NAME (to_URL e p) = Some r"
      unfolding st using cache_get_fold [OF caches_open_names ent(2) _ r] by blast
  qed
qed

text \<open>
  Witness for C5: with only \<open>/static/index.html\<close> unreachable, install on an empty
  storage rejects and leaves the new store empty; with every entry served it resolves,
  the offline document is stored, and \<open>skipWaiting\<close> is the last call.
\<close>

theorem install_all_or_nothing_witness:
  "(\<exists>p \<in> set urlsToCache. network index_down_env (to_URL index_down_env p) = NetFail)
   \<and> fst (install index_down_env empty_world) = Rejected
   \<and> storage (snd (install index_down_env empty_world)) = [(''spackler-v3'', [])]
   \<and> SkipWaiting \<notin> set (calls_since empty_world (snd (install index_down_env empty_world)))
   \<and> list_all (\<lambda>p. network (serving fresh_page) (to_URL (serving fresh_page) p) = NetOk fresh_page)
        urlsToCache
   \<and> fst (install (serving fresh_page) empty_world) = Resolved ()
   \<and> cache_get (storage (snd (install (serving fresh_page) empty_world))) CACHE_NAME
        (at_site ''/static/offline.html'') = Some fresh_page
   \<and> last (calls_since empty_world (snd (install (serving fresh_page) empty_world))) = SkipWaiting"
proof -
  have down: "\<exists>p \<in> set urlsToCache. network index_down_env (to_URL index_down_env p) = NetFail"
    by (simp add: urlsToCache_def index_down_env_def to_URL_def at_site_def)
  have served: "list_all (\<lambda>p. network (serving fresh_page) (to_URL (serving fresh_page) p) = NetOk fresh_page)
      urlsToCache"
    by (simp add: serving_def list_all_iff)
  then have up: "\<forall>p \<in> set urlsToCache. \<exists>r. network (serving fresh_page) (to_URL (serving fresh_page) p) = NetOk r"
    by (simp add: list_all_iff)
  have off: "''/static/offline.html'' \<in> set urlsToCache"
    by (simp add: urlsToCache_def)
  have net: "network (serving fresh_page) (to_URL (serving fresh_page) ''/static/offline.html'') = NetOk fresh_page"
    by (simp add: serving_def)
  have u: "to_URL (serving fresh_page) ''/static/offline.html'' = at_site ''/static/offline.html''"
    by (simp add: to_URL_def serving_def at_site_def)
  have failing: "fst (install index_down_env empty_world) = Rejected
      \<and> storage (snd (install index_down_env empty_world)) = [(''spackler-v3'', [])]
      \<and> SkipWaiting \<notin> set (calls_since empty_world (snd (install index_down_env empty_world)))"
    using install_all_or_nothing [of index_down_env empty_world] down
    by (simp add: empty_world_def CACHE_NAME_def CACHE_VERSION_def)
  have ok: "fst (install (serving fresh_page) empty_world) = Resolved ()
      \<and> cache_get (storage (snd (install (serving fresh_page) empty_world))) CACHE_NAME
           (at_site ''/static/offline.html'') = Some fresh_page
      \<and> last (calls_since empty_world (snd (install (serving fresh_page) empty_world))) = SkipWaiting"
    using install_all_or_nothing [of "serving fresh_page" empty_world] up off net u
    by auto
  show ?thesis
    using down served failing ok by blast
qed

subsection \<open>C6: a navigation with the network up\<close>

text \<open>
  C6 as stated speaks of every navigation request. A GET navigation to a path under
  \<open>/api/\<close> is not intercepted: the network answers it, and no copy of the response is
  written to any store.
\<close>

theorem navigation_copy_counterexample:
  "mode api_page_request = ''navigate''
   \<and> network (serving fresh_page) (url api_page_request) = NetOk fresh_page
   \<and> fetch_handler (serving fresh_page) api_page_request installed = (NotIntercepted, installed)
   \<and> cache_get (storage (snd (fetch_handler (serving fresh_page) api_page_request installed)))
        CACHE_NAME (url api_page_request) = None"
  by (simp add: fetch_handler_def cache_get_def api_page_request_def installed_def serving_def
      at_site_def CACHE_NAME_def CACHE_VERSION_def)

text \<open>
  C6, amended: for every GET navigation request whose path is not under \<open>/api/\<close>, when
  the network fetch succeeds the page receives the network response, and a clone of that
  response is written into the current generation's store under the request's URL (the
  handler fetches, opens the current store and puts the clone, and does nothing else).
\<close>

theorem navigation_network_first:
  assumes "req_method req = ''GET''" and "\<not> startsWith (pathname (url req)) ''/api/''"
    and "mode req = ''navigate''" and "network e (url req) = NetOk r"
  shows "responded (fst (fetch_handler e req w)) = Some (Delivered r)
       \<and> cache_get (storage (snd (fetch_handler e req w))) CACHE_NAME (url req) = Some (clone r)
       \<and> calls_since w (snd (fetch_handler e req w)) =
           [Fetch (url req), CachesOpen CACHE_NAME, CachePut CACHE_NAME (url req) (clone r)]"
  using assms(4)
  by (simp add: navigate_value [OF assms(1-3)] navigate_world [OF assms(1-3)] responded_def
      cache_and_return_get cache_and_return_trace calls_since_def record_call_def clone_def)

text \<open>
  Witness for C6: the page \<open>/\<close>, served today's leaderboard, on a storage whose
  current store does not hold it yet.
\<close>

theorem navigation_network_first_witness:
  "req_method page_request = ''GET''
   \<and> \<not> startsWith (pathname (url page_request)) ''/api/''
   \<and> mode page_request = ''navigate''
   \<and> network (serving fresh_page) (url page_request) = NetOk fresh_page
   \<and> responded (fst (fetch_handler (serving fresh_page) page_request installed)) = Some (Delivered fresh_page)
   \<and> cache_get (storage (snd (fetch_handler (serving fresh_page) page_request installed)))
        ''spackler-v3'' (at_site ''/'') = Some fresh_page
   \<and> cache_get (storage installed) ''spackler-v3'' (at_site ''/'') = None"
  using navigation_network_first [of page_request "serving fresh_page" fresh_page installed]
  by (simp add: page_request_def serving_def at_site_def clone_def cache_get_def installed_def
      CACHE_NAME_def CACHE_VERSION_def)

subsection \<open>C7: a cached asset\<close>

text \<open>
  C7 as stated speaks of every non-navigation GET request with a cached value. A GET for
  a path under \<open>/api/\<close> is not intercepted even when a store of the origin holds a
  response for it: the cached value is not returned and nothing is updated.
\<close>

theorem cached_value_counterexample:
  "req_method api_data_request = ''GET''
   \<and> mode api_data_request \<noteq> ''navigate''
   \<and> storage_match (storage with_page_store) (url api_data_request) = Some old_page
   \<and> network (serving fresh_page) (url api_data_request) = NetOk fresh_page
   \<and> fetch_handler (serving fresh_page) api_data_request with_page_store = (NotIntercepted, with_page_store)
   \<and> responded (fst (fetch_handler (serving fresh_page) api_data_request with_page_store))
        \<noteq> Some (Delivered old_page)"
  by (simp add: fetch_handler_def responded_def api_data_request_def with_page_store_def
      serving_def at_site_def)

text \<open>
  C7, amended: for every non-navigation GET request whose path is not under \<open>/api/\<close>
  and for which a cached value is present, the page receives the cached value whatever
  the network does (also when the fetch fails or never answers, so the answer does not
  wait for it); and when the fetch resolves, the entry of the current generation's store
  for that request is the fresh response.
\<close>

theorem stale_while_revalidate_cached:
  assumes "req_method req = ''GET''" and "\<not> startsWith (pathname (url req)) ''/api/''"
    and "mode req \<noteq> ''navigate''" and "storage_match (storage w) (url req) = Some cached"
  shows "responded (fst (fetch_handler e req w)) = Some (Delivered cached)
       \<and> (\<forall>r. network e (url req) = NetOk r \<longrightarrow>
            cache_get (storage (snd (fetch_handler e req w))) CACHE_NAME (url req) = Some r)"
  using assms(4)
  by (simp add: revalidate_value [OF assms(1-3)] revalidate_world [OF assms(1-3)] responded_def
      cache_and_return_get)

text \<open>
  Witness for C7: the stored gopher picture is delivered while the network hangs, while
  it is down, and while it serves a new response, which then replaces the stored one.
\<close>

theorem stale_while_revalidate_cached_witness:
  "req_method gopher_request = ''GET''
   \<and> \<not> startsWith (pathname (url gopher_request)) ''/api/''
   \<and> mode gopher_request \<noteq> ''navigate''
   \<and> storage_match (storage installed) (url gopher_request) = Some old_gopher
   \<and> responded (fst (fetch_handler hanging_env gopher_request installed)) = Some (Delivered old_gopher)
   \<and> responded (fst (fetch_handler offline_env gopher_request installed)) = Some (Delivered old_gopher)
   \<and> responded (fst (fetch_handler (serving fresh_page) gopher_request installed)) = Some (Delivered old_gopher)
   \<and> network (serving fresh_page) (url gopher_request) = NetOk fresh_page
   \<and> cache_get (storage (snd (fetch_handler (serving fresh_page) gopher_request installed)))
        CACHE_NAME (url gopher_request) = Some fresh_page"
  using stale_while_revalidate_cached [of gopher_request installed old_gopher hanging_env]
    stale_while_revalidate_cached [of gopher_request installed old_gopher offline_env]
    stale_while_revalidate_cached [of gopher_request installed old_gopher "serving fresh_page"]
  by (simp add: gopher_request_def installed_def at_site_def serving_def)

subsection \<open>C8: deletions during activate are independent\<close>

text \<open>
  C8. Whatever deletions the platform fails, activate issues a deletion for every
  enumerated store that has the prefix and is not the current one, and each such store
  whose own deletion does not fail is gone afterwards. The stores left depend only on
  which stores there were, not on the order of enumeration.
\<close>

theorem activate_cleanup_independent:
  "(\<forall>n \<in> set (map fst (storage w)).
      n \<noteq> CACHE_NAME \<and> startsWith n ''spackler-'' \<longrightarrow>
        CachesDelete n \<in> set (calls_since w (snd (activate e w)))
      \<and> (\<not> delete_fails e n \<longrightarrow> n \<notin> set (map fst (storage (snd (activate e w))))))
   \<and> (\<forall>w'. set (storage w') = set (storage w) \<longrightarrow>
        set (storage (snd (activate e w'))) = set (storage (snd (activate e w)))
      \<and> set (calls_since w' (snd (activate e w'))) = set (calls_since w (snd (activate e w))))"
proof (intro conjI ballI allI impI)
  fix n
  assume "n \<in> set (map fst (storage w))" and "n \<noteq> CACHE_NAME \<and> startsWith n ''spackler-''"
  then show "CachesDelete n \<in> set (calls_since w (snd (activate e w)))"
    by (simp add: activate_trace calls_since_def)
next
  fix n
  assume "n \<noteq> CACHE_NAME \<and> startsWith n ''spackler-''" and "\<not> delete_fails e n"
  then show "n \<notin> set (map fst (storage (snd (activate e w))))"
    by (auto simp: activate_storage)
next
  fix w' :: world
  assume same: "set (storage w') = set (storage w)"
  then show "set (storage (snd (activate e w'))) = set (storage (snd (activate e w)))"
    by (simp add: activate_storage)
  have names: "set (map fst (storage w')) = set (map fst (storage w))"
    using same by simp
  have res: "fst (activate e w') = fst (activate e w)"
    by (simp only: activate_result names)
  show "set (calls_since w' (snd (activate e w'))) = set (calls_since w (snd (activate e w)))"
    using same by (simp add: activate_trace calls_since_def res)
qed

text \<open>
  Witness for C8: the platform cannot delete \<open>spackler-v1\<close>. Deletions are issued for
  \<open>spackler-v2\<close> and \<open>spackler-v1\<close> alike, \<open>spackler-v2\<close> is gone, \<open>spackler-v1\<close>
  stays, and the promise of activate rejects.
\<close>

theorem activate_cleanup_independent_witness:
  "calls_since several_generations (snd (activate stuck_v1_env several_generations)) =
     [CachesKeys, CachesDelete ''spackler-v2'', CachesDelete ''spackler-v1'']
   \<and> delete_fails stuck_v1_env ''spackler-v1''
   \<and> \<not> delete_fails stuck_v1_env ''spackler-v2''
   \<and> map fst (storage (snd (activate stuck_v1_env several_generations))) =
       [''fonts'', ''spackler-v3'', ''spackler-v1'']
   \<and> fst (activate stuck_v1_env several_generations) = Rejected
   \<and> CachesDelete ''spackler-v1''
       \<in> set (calls_since several_generations (snd (activate stuck_v1_env several_generations)))
   \<and> ''spackler-v2'' \<notin> set (map fst (storage (snd (activate stuck_v1_env several_generations))))
   \<and> set (storage (several_generations\<lparr>storage := rev (storage several_generations)\<rparr>)) =
       set (storage several_generations)
   \<and> set (storage (snd (activate stuck_v1_env
        (several_generations\<lparr>storage := rev (storage several_generations)\<rparr>)))) =
       set (storage (snd (activate stuck_v1_env several_generations)))"
proof -
  have run: "activate stuck_v1_env several_generations =
      (Rejected,
       \<lparr>storage = [(''fonts'', [(at_site ''/static/font.woff'', \<lparr>status = 200, body = ''woff''\<rparr>)]),
                   (''spackler-v3'', [(at_site ''/static/offline.html'', offline_doc)]),
                   (''spackler-v1'', [])],
        trace = [CachesKeys, CachesDelete ''spackler-v2'', CachesDelete ''spackler-v1'']\<rparr>)"
    by (simp add: activate_def caches_keys_def caches_delete_def record_call_def
        several_generations_def stuck_v1_env_def CACHE_NAME_def CACHE_VERSION_def Let_def)
  have names: "map fst (storage several_generations) =
      [''spackler-v2'', ''fonts'', ''spackler-v3'', ''spackler-v1'']"
    by (simp add: several_generations_def)
  have tr: "trace several_generations = []"
    by (simp add: several_generations_def)
  have fails: "delete_fails stuck_v1_env ''spackler-v1''" "\<not> delete_fails stuck_v1_env ''spackler-v2''"
    by (simp_all add: stuck_v1_env_def)
  have same: "set (storage (several_generations\<lparr>storage := rev (storage several_generations)\<rparr>)) =
      set (storage several_generations)"
    by simp
  have each: "\<forall>n \<in> set (map fst (storage several_generations)).
      n \<noteq> CACHE_NAME \<and> startsWith n ''spackler-'' \<longrightarrow>
        CachesDelete n \<in> set (calls_since several_generations (snd (activate stuck_v1_env several_generations)))
      \<and> (\<not> delete_fails stuck_v1_env n \<longrightarrow>
          n \<notin> set (map fst (storage (snd (activate stuck_v1_env several_generations)))))"
    and order: "\<forall>w'. set (storage w') = set (storage several_generations) \<longrightarrow>
        set (storage (snd (activate stuck_v1_env w'))) =
          set (storage (snd (activate stuck_v1_env several_generations)))
      \<and> set (calls_since w' (snd (activate stuck_v1_env w'))) =
          set (calls_since several_generations (snd (activate stuck_v1_env several_generations)))"
    using activate_cleanup_independent [of several_generations stuck_v1_env] by blast+
  have v1: "''spackler-v1'' \<in> set (map fst (storage several_generations))"
    "''spackler-v1'' \<noteq> CACHE_NAME \<and> startsWith ''spackler-v1'' ''spackler-''"
    and v2: "''spackler-v2'' \<in> set (map fst (storage several_generations))"
    "''spackler-v2'' \<noteq> CACHE_NAME \<and> startsWith ''spackler-v2'' ''spackler-''"
    by (simp_all add: names CACHE_NAME_def CACHE_VERSION_def)
  have issued: "CachesDelete ''spackler-v1''
      \<in> set (calls_since several_generations (snd (activate stuck_v1_env several_generations)))"
    using each v1 by blast
  have gone: "''spackler-v2'' \<notin> set (map fst (storage (snd (activate stuck_v1_env several_generations))))"
    using each v2 fails(2) by blast
  have reordered: "set (storage (snd (activate stuck_v1_env
        (several_generations\<lparr>storage := rev (storage several_generations)\<rparr>)))) =
       set (storage (snd (activate stuck_v1_env several_generations)))"
    using order same by blast
  have calls: "calls_since several_generations (snd (activate stuck_v1_env several_generations)) =
     [CachesKeys, CachesDelete ''spackler-v2'', CachesDelete ''spackler-v1'']"
    by (simp add: run tr calls_since_def)
  have left: "map fst (storage (snd (activate stuck_v1_env several_generations))) =
       [''fonts'', ''spackler-v3'', ''spackler-v1'']"
    by (simp add: run)
  have res: "fst (activate stuck_v1_env several_generations) = Rejected"
    by (simp add: run)
  show ?thesis
    using calls fails left res issued gone same reordered by blast
qed

subsection \<open>C9: stores without the prefix are left alone\<close>

text \<open>
  C9. Activate issues a deletion only for a name that both differs from \<open>CACHE_NAME\<close>
  and starts with \<open>spackler-\<close>; the stores whose names do not start with \<open>spackler-\<close>
  are afterwards exactly as before, in content and in order.
\<close>

theorem activate_spares_unprefixed:
  "(\<forall>n. CachesDelete n \<in> set (calls_since w (snd (activate e w))) \<longrightarrow>
        n \<noteq> CACHE_NAME \<and> startsWith n ''spackler-'')
   \<and> filter (\<lambda>(n, c). \<not> startsWith n ''spackler-'') (storage (snd (activate e w))) =
       filter (\<lambda>(n, c). \<not> startsWith n ''spackler-'') (storage w)"
proof
  show "\<forall>n. CachesDelete n \<in> set (calls_since w (snd (activate e w))) \<longrightarrow>
        n \<noteq> CACHE_NAME \<and> startsWith n ''spackler-''"
    by (auto simp: activate_trace calls_since_def split: if_splits)
  show "filter (\<lambda>(n, c). \<not> startsWith n ''spackler-'') (storage (snd (activate e w))) =
       filter (\<lambda>(n, c). \<not> startsWith n ''spackler-'') (storage w)"
    unfolding activate_storage filter_filter by (rule filter_cong) auto
qed

text \<open>
  Witness for C9: the store \<open>fonts\<close> keeps its entry while two old generations are
  deleted, and no deletion of \<open>fonts\<close> or of \<open>spackler-v3\<close> is issued.
\<close>

theorem activate_spares_unprefixed_witness:
  "CachesDelete ''spackler-v2'' \<in> set (calls_since several_generations (snd (activate offline_env several_generations)))
   \<and> ''spackler-v2'' \<noteq> CACHE_NAME \<and> startsWith ''spackler-v2'' ''spackler-''
   \<and> CachesDelete ''fonts'' \<notin> set (calls_since several_generations (snd (activate offline_env several_generations)))
   \<and> CachesDelete ''spackler-v3'' \<notin> set (calls_since several_generations (snd (activate offline_env several_generations)))
   \<and> filter (\<lambda>(n, c). \<not> startsWith n ''spackler-'') (storage (snd (activate offline_env several_generations))) =
       [(''fonts'', [(at_site ''/static/font.woff'', \<lparr>status = 200, body = ''woff''\<rparr>)])]"
proof -
  have run: "activate offline_env several_generations =
      (Resolved (),
       \<lparr>storage = [(''fonts'', [(at_site ''/static/font.woff'', \<lparr>status = 200, body = ''woff''\<rparr>)]),
                   (''spackler-v3'', [(at_site ''/static/offline.html'', offline_doc)])],
        trace = [CachesKeys, CachesDelete ''spackler-v2'', CachesDelete ''spackler-v1'', ClientsClaim]\<rparr>)"
    by (simp add: activate_def caches_keys_def caches_delete_def record_call_def
        several_generations_def offline_env_def CACHE_NAME_def CACHE_VERSION_def Let_def)
  have tr: "trace several_generations = []"
    by (simp add: several_generations_def)
  show ?thesis
    using activate_spares_unprefixed [of several_generations offline_env]
    by (simp add: run tr calls_since_def CACHE_NAME_def CACHE_VERSION_def)
qed

subsection \<open>C10: responses are cached whatever their status\<close>

text \<open>
  C10. For every GET request the handler answers (navigation or not, path outside
  \<open>/api/\<close>), a fetch that resolves with a response \<open>r\<close> of any status has its clone put
  into the current generation's store under the request's URL. If no other store holds
  that URL, a later request for it with the network down is answered with \<open>r\<close>.
\<close>

theorem any_status_is_cached:
  assumes "req_method req = ''GET''" and "\<not> startsWith (pathname (url req)) ''/api/''"
    and "network e (url req) = NetOk r"
  shows "cache_get (storage (snd (fetch_handler e req w))) CACHE_NAME (url req) = Some (clone r)
       \<and> CachePut CACHE_NAME (url req) (clone r) \<in> set (calls_since w (snd (fetch_handler e req w)))
       \<and> ((\<forall>(n, c) \<in> set (storage w). n \<noteq> CACHE_NAME \<longrightarrow> map_of c (url req) = None) \<longrightarrow>
            (\<forall>e'. network e' (url req) = NetFail \<longrightarrow>
               responded (fst (fetch_handler e' req (snd (fetch_handler e req w)))) = Some (Delivered r)))"
proof -
  let ?w' = "snd (fetch_handler e req w)"
  obtain w0 where w0: "?w' = snd (cache_and_return (url req) r w0)"
    "storage w0 = storage w" "\<exists>cs. trace w0 = trace w @ cs"
  proof (cases "mode req = ''navigate''")
    case True
    show ?thesis
      by (rule that [of "record_call (Fetch (url req)) w"])
        (simp_all add: navigate_world [OF assms(1,2) True] assms(3) record_call_def)
  next
    case False
    show ?thesis
      by (rule that [of "record_call (Fetch (url req)) (record_call (CachesMatch (url req)) w)"])
        (simp_all add: revalidate_world [OF assms(1,2) False] assms(3) record_call_def)
  qed
  have g: "cache_get (storage ?w') CACHE_NAME (url req) = Some (clone r)"
    unfolding w0(1) by (simp add: cache_and_return_get clone_def)
  have t: "CachePut CACHE_NAME (url req) (clone r) \<in> set (calls_since w ?w')"
    unfolding w0(1) using w0(3) by (auto simp: cache_and_return_trace calls_since_def clone_def)
  have later: "responded (fst (fetch_handler e' req ?w')) = Some (Delivered r)"
    if other: "\<forall>(n, c) \<in> set (storage w). n \<noteq> CACHE_NAME \<longrightarrow> map_of c (url req) = None"
      and off: "network e' (url req) = NetFail" for e'
  proof -
    have m: "storage_match (storage ?w') (url req) = Some r"
      unfolding w0(1) by (rule cache_and_return_match) (use other w0(2) in simp)
    show ?thesis
    proof (cases "mode req = ''navigate''")
      case True
      show ?thesis
        using off m by (simp add: navigate_value [OF assms(1,2) True] responded_def)
    next
      case False
      show ?thesis
        using off m by (simp add: revalidate_value [OF assms(1,2) False] responded_def)
    qed
  qed
  show ?thesis
    using g t later by blast
qed

text \<open>
  Witness for C10: the server answers \<open>/static/app.js\<close> with 404. The 404 is stored,
  and once the network is down the same request is answered with it.
\<close>

theorem any_status_is_cached_witness:
  "req_method script_request = ''GET''
   \<and> \<not> startsWith (pathname (url script_request)) ''/api/''
   \<and> network (serving not_found) (url script_request) = NetOk not_found
   \<and> status not_found = 404
   \<and> cache_get (storage (snd (fetch_handler (serving not_found) script_request installed)))
        ''spackler-v3'' (at_site ''/static/app.js'') = Some not_found
   \<and> list_all (\<lambda>(n, c). n = CACHE_NAME \<or> map_of c (url script_request) = None) (storage installed)
   \<and> network offline_env (url script_request) = NetFail
   \<and> responded (fst (fetch_handler offline_env script_request
        (snd (fetch_handler (serving not_found) script_request installed)))) = Some (Delivered not_found)"
proof -
  have h: "req_method script_request = ''GET''"
    "\<not> startsWith (pathname (url script_request)) ''/api/''"
    "network (serving not_found) (url script_request) = NetOk not_found"
    by (simp_all add: script_request_def serving_def at_site_def)
  have alone: "list_all (\<lambda>(n, c). n = CACHE_NAME \<or> map_of c (url script_request) = None) (storage installed)"
    by (simp add: installed_def CACHE_NAME_def CACHE_VERSION_def)
  then have other: "\<forall>(n, c) \<in> set (storage installed). n \<noteq> CACHE_NAME \<longrightarrow> map_of c (url script_request) = None"
    by (auto simp: list_all_iff)
  have off: "network offline_env (url script_request) = NetFail"
    by (simp add: offline_env_def)
  have u: "url script_request = at_site ''/static/app.js''" "CACHE_NAME = ''spackler-v3''"
    by (simp_all add: script_request_def CACHE_NAME_def CACHE_VERSION_def)
  have s: "status not_found = 404"
    by (simp add: not_found_def)
  have stored: "cache_get (storage (snd (fetch_handler (serving not_found) script_request installed)))
        ''spackler-v3'' (at_site ''/static/app.js'') = Some not_found"
    and served: "responded (fst (fetch_handler offline_env script_request
        (snd (fetch_handler (serving not_found) script_request installed)))) = Some (Delivered not_found)"
    using any_status_is_cached [OF h, of installed] other off
    by (simp_all add: u clone_def)
  show ?thesis
    using h s stored alone off served by blast
qed

end
